theory Spec2Isabelle
  imports Main "HOL-Library.Sublist"
begin

section \<open>Strings\<close>

text \<open>
  A Python \<open>str\<close> is a sequence of Unicode code points, and \<open>len\<close>, the regular
  expression engine and \<open>strip\<close> all work on code points. A string is therefore a list
  of code points (natural numbers); \<open>py\<close> turns an ASCII literal into one.
\<close>

type_synonym str = "nat list"

definition py :: "string \<Rightarrow> str" where
  "py cs = map of_char cs"

abbreviation (input) newline :: nat where "newline \<equiv> 10"
abbreviation (input) space :: nat where "space \<equiv> 32"
abbreviation (input) star :: nat where "star \<equiv> 42"
abbreviation (input) dash :: nat where "dash \<equiv> 45"
abbreviation (input) colon :: nat where "colon \<equiv> 58"
abbreviation (input) bullet_glyph :: nat where "bullet_glyph \<equiv> 8226"

text \<open>
  \<open>\s\<close> in a \<open>str\<close> pattern and \<open>str.strip()\<close> use the same test,
  CPython's \<open>Py_UNICODE_ISSPACE\<close>: tab to carriage return, the four separators
  0x1C..0x1F, space, NEL, the no-break space and the Unicode space separators.
\<close>

definition isspace :: "nat \<Rightarrow> bool" where
  "isspace c =
     ((9 \<le> c \<and> c \<le> 13) \<or> (28 \<le> c \<and> c \<le> 32) \<or> c = 133 \<or> c = 160 \<or> c = 5760 \<or>
      (8192 \<le> c \<and> c \<le> 8202) \<or> c = 8232 \<or> c = 8233 \<or> c = 8239 \<or> c = 8287 \<or> c = 12288)"

text \<open>
  \<open>\d\<close> in a \<open>str\<close> pattern matches every Unicode decimal digit. The ASCII digits
  are fixed; which code points above 127 are decimal digits is a table of the interpreter's
  Unicode database, taken here as the parameter \<open>nd\<close>.
\<close>

definition isdecimal :: "(nat \<Rightarrow> bool) \<Rightarrow> nat \<Rightarrow> bool" where
  "isdecimal nd c = ((48 \<le> c \<and> c \<le> 57) \<or> (128 \<le> c \<and> nd c))"

text \<open>\<open>str(n)\<close> for a non-negative integer: its decimal digits.\<close>

fun str_nat :: "nat \<Rightarrow> str" where
  "str_nat n = (if n < 10 then [48 + n] else str_nat (n div 10) @ [48 + n mod 10])"

declare str_nat.simps [simp del]

text \<open>\<open>s.strip()\<close> and \<open>s.strip(chars)\<close>.\<close>

definition strip :: "str \<Rightarrow> str" where
  "strip s = rev (dropWhile isspace (rev (dropWhile isspace s)))"

definition strip_chars :: "str \<Rightarrow> str \<Rightarrow> str" where
  "strip_chars chars s =
     rev (dropWhile (\<lambda>c. c \<in> set chars) (rev (dropWhile (\<lambda>c. c \<in> set chars) s)))"

section \<open>The three regular expressions of \<open>parse_gemini_structure\<close>\<close>

text \<open>
  \<open>.*?\*\*\<close>: the lazy \<open>.*?\<close> takes as few characters as possible, none of them a
  newline, before the closing \<open>**\<close>. The result is the text matched and the text left.
\<close>

fun lazy_dots_stars :: "str \<Rightarrow> (str \<times> str) option" where
  "lazy_dots_stars (c # d # cs) =
     (if c = star \<and> d = star then Some ([star, star], cs)
      else if c = newline then None
      else map_option (\<lambda>(m, r). (c # m, r)) (lazy_dots_stars (d # cs)))"
| "lazy_dots_stars _ = None"

text \<open>
  \<open>\*\*Slide \d+:.*?\*\*\<close> tried at the start of \<open>s\<close>. \<open>\d+\<close> is greedy and the
  colon that must follow is not a digit, so giving digits back never helps.
\<close>

definition match_header :: "(nat \<Rightarrow> bool) \<Rightarrow> str \<Rightarrow> (str \<times> str) option" where
  "match_header nd s =
     (if prefix (py ''**Slide '') s then
        (let r = drop 8 s; ds = takeWhile (isdecimal nd) r in
         if ds = [] then None
         else (case dropWhile (isdecimal nd) r of
                 [] \<Rightarrow> None
               | c # r' \<Rightarrow>
                   if c = colon then
                     (case lazy_dots_stars r' of
                        None \<Rightarrow> None
                      | Some (m, rest) \<Rightarrow> Some (py ''**Slide '' @ ds @ [colon] @ m, rest))
                   else None))
      else None)"

lemma lazy_dots_stars_splits:
  "lazy_dots_stars s = Some (m, rest) \<Longrightarrow> s = m @ rest \<and> m \<noteq> []"
  by (induction s arbitrary: m rest rule: lazy_dots_stars.induct)
     (auto split: if_splits)

lemma match_header_splits:
  assumes "match_header nd s = Some (m, rest)"
  shows "s = m @ rest \<and> m \<noteq> []"
proof -
  from assms have p: "prefix (py ''**Slide '') s"
    by (auto simp: match_header_def split: if_splits)
  then obtain r where s: "s = py ''**Slide '' @ r"
    by (auto simp: prefix_def)
  have len: "length (py ''**Slide '') = 8"
    by (simp add: py_def)
  from s len have r: "drop 8 s = r"
    by simp
  from assms p r obtain m' r' where
    d: "dropWhile (isdecimal nd) r = colon # r'" and
    l: "lazy_dots_stars r' = Some (m', rest)" and
    m: "m = py ''**Slide '' @ takeWhile (isdecimal nd) r @ [colon] @ m'"
    by (auto simp: match_header_def Let_def split: if_splits list.splits option.splits)
  from l have r': "r' = m' @ rest"
    by (simp add: lazy_dots_stars_splits)
  have "r = takeWhile (isdecimal nd) r @ dropWhile (isdecimal nd) r"
    by simp
  with d r' have "r = takeWhile (isdecimal nd) r @ [colon] @ m' @ rest"
    by simp
  with s m show ?thesis
    by (simp add: py_def)
qed

text \<open>
  \<open>re.findall\<close> and \<open>re.split\<close> scan from left to right: where the pattern matches,
  the match is taken and the scan goes on behind it; elsewhere it moves one character on.
  The pattern never matches the empty string.
\<close>

function re_findall_header :: "(nat \<Rightarrow> bool) \<Rightarrow> str \<Rightarrow> str list" where
  "re_findall_header nd [] = []"
| "re_findall_header nd (c # cs) =
     (case match_header nd (c # cs) of
        None \<Rightarrow> re_findall_header nd cs
      | Some (m, rest) \<Rightarrow> m # re_findall_header nd rest)"
  by pat_completeness auto
termination
proof (relation "measure (\<lambda>(nd, s). length s)")
  fix nd :: "nat \<Rightarrow> bool" and c cs x2 m rest
  assume "match_header nd (c # cs) = Some x2" "(m, rest) = x2"
  then have "c # cs = m @ rest \<and> m \<noteq> []"
    using match_header_splits [of nd "c # cs" m rest] by simp
  then have "length rest < length (c # cs)"
    by (metis length_append length_greater_0_conv less_add_same_cancel2)
  then show "((nd, rest), (nd, c # cs)) \<in> measure (\<lambda>(nd, s). length s)"
    by simp
qed simp_all

text \<open>
  \<open>re.split\<close> returns the text before the first match, between the matches and behind
  the last one (the pattern has no group, so the matches themselves are left out). Where
  there is no match the character joins the first piece of what follows; the result is
  never empty (\<open>re_split_header_nonempty\<close> below), so the branch for \<open>[]\<close> is never
  taken.
\<close>

function re_split_header :: "(nat \<Rightarrow> bool) \<Rightarrow> str \<Rightarrow> str list" where
  "re_split_header nd [] = [[]]"
| "re_split_header nd (c # cs) =
     (case match_header nd (c # cs) of
        None \<Rightarrow> (case re_split_header nd cs of
                   [] \<Rightarrow> [[c]]
                 | p # ps \<Rightarrow> (c # p) # ps)
      | Some (m, rest) \<Rightarrow> [] # re_split_header nd rest)"
  by pat_completeness auto
termination
proof (relation "measure (\<lambda>(nd, s). length s)")
  fix nd :: "nat \<Rightarrow> bool" and c cs x2 m rest
  assume "match_header nd (c # cs) = Some x2" "(m, rest) = x2"
  then have "c # cs = m @ rest \<and> m \<noteq> []"
    using match_header_splits [of nd "c # cs" m rest] by simp
  then have "length rest < length (c # cs)"
    by (metis length_append length_greater_0_conv less_add_same_cancel2)
  then show "((nd, rest), (nd, c # cs)) \<in> measure (\<lambda>(nd, s). length s)"
    by simp
qed simp_all

text \<open>
  \<open>re.search(r'\*\*Title:\*\*\s*(.*)', content)\<close>. Behind the label, \<open>\s*\<close> and
  \<open>(.*)\<close> match whatever follows, so the leftmost match starts at the leftmost label:
  \<open>after_title_label\<close> is the text behind it. There \<open>\s*\<close> takes all the whitespace
  there is (newlines too) and group 1 takes the rest of that line.
\<close>

fun after_title_label :: "str \<Rightarrow> str option" where
  "after_title_label [] = None"
| "after_title_label (c # cs) =
     (if prefix (py ''**Title:**'') (c # cs) then Some (drop 10 (c # cs))
      else after_title_label cs)"

definition re_search_title :: "str \<Rightarrow> str option" where
  "re_search_title content =
     map_option (\<lambda>r. takeWhile (\<lambda>x. x \<noteq> newline) (dropWhile isspace r))
       (after_title_label content)"

text \<open>
  \<open>\*\s+(.*)\<close> tried at the start of \<open>s\<close>: an asterisk, at least one whitespace
  character (as many as there are), then the rest of the line as group 1.
\<close>

definition match_bullet :: "str \<Rightarrow> (str \<times> str) option" where
  "match_bullet s =
     (case s of
        [] \<Rightarrow> None
      | c # r \<Rightarrow>
          if c = star \<and> takeWhile isspace r \<noteq> [] then
            (let r1 = dropWhile isspace r
             in Some (takeWhile (\<lambda>x. x \<noteq> newline) r1, dropWhile (\<lambda>x. x \<noteq> newline) r1))
          else None)"

lemma match_bullet_shorter:
  "match_bullet s = Some (g, rest) \<Longrightarrow> length rest < length s"
proof -
  assume a: "match_bullet s = Some (g, rest)"
  then obtain c r where s: "s = c # r" and
    rest: "rest = dropWhile (\<lambda>x. x \<noteq> newline) (dropWhile isspace r)"
    by (auto simp: match_bullet_def Let_def split: list.splits if_splits)
  have "length rest \<le> length (dropWhile isspace r)"
    unfolding rest by (rule length_dropWhile_le)
  also have "\<dots> \<le> length r"
    by (rule length_dropWhile_le)
  finally show ?thesis
    using s by simp
qed

text \<open>\<open>re.findall\<close> with one group returns group 1 of every match, left to right.\<close>

function re_findall_bullets :: "str \<Rightarrow> str list" where
  "re_findall_bullets [] = []"
| "re_findall_bullets (c # cs) =
     (case match_bullet (c # cs) of
        None \<Rightarrow> re_findall_bullets cs
      | Some (g, rest) \<Rightarrow> g # re_findall_bullets rest)"
  by pat_completeness auto
termination
proof (relation "measure length")
  fix c cs x2 g rest
  assume "match_bullet (c # cs) = Some x2" "(g, rest) = x2"
  then have "length rest < length (c # cs)"
    using match_bullet_shorter [of "c # cs" g rest] by simp
  then show "(rest, c # cs) \<in> measure length"
    by simp
qed simp_all

section \<open>\<open>parse_gemini_structure\<close>\<close>

text \<open>The body of the loop: the record made from fragment \<open>content\<close> at index \<open>i\<close>.\<close>

definition slide_record :: "nat \<Rightarrow> str \<Rightarrow> str \<times> str list" where
  "slide_record i content =
     (let title = (case re_search_title content of
                     Some g \<Rightarrow> strip g
                   | None \<Rightarrow> py ''Slide '' @ str_nat (i + 2));
          bullets = re_findall_bullets content
      in (title, bullets))"

definition parse_gemini_structure :: "(nat \<Rightarrow> bool) \<Rightarrow> str \<Rightarrow> (str \<times> str list) list" where
  "parse_gemini_structure nd slide_structure =
     (let slides = re_split_header nd slide_structure;
          headers = re_findall_header nd slide_structure
      in map (\<lambda>(i, header).
                slide_record i (if i + 1 < length slides then slides ! (i + 1) else []))
             (List.enumerate 0 headers))"

section \<open>The deck\<close>

text \<open>
  What the code sets through the slide library: a presentation has a canvas size (in EMU,
  914400 to the inch) and slides; a slide has a layout, the text of its title shape and the
  paragraphs of its second placeholder; a paragraph has its text and the formatting given
  to it, if any.
\<close>

datatype pp_align = LEFT | CENTER | RIGHT | JUSTIFY

record para =
  p_text :: str
  font_size :: "nat option"
  font_name :: "str option"
  font_rgb :: "(nat \<times> nat \<times> nat) option"
  alignment :: "pp_align option"

record slide =
  layout :: nat
  title_text :: str
  body :: "para list"

record presentation =
  slide_width :: int
  slide_height :: int
  slides :: "slide list"

definition MAX_SLIDES :: nat where "MAX_SLIDES = 10"
definition PROCESSING_CHUNK_SIZE :: nat where "PROCESSING_CHUNK_SIZE = 15000"
definition MIN_CONTENT_LENGTH :: nat where "MIN_CONTENT_LENGTH = 100"
definition PPT_FONT :: str where "PPT_FONT = py ''Calibri''"

text \<open>A paragraph holding only text, as setting \<open>.text\<close> or \<open>text_frame.clear()\<close> leaves it.\<close>

definition plain_paragraph :: "str \<Rightarrow> para" where
  "plain_paragraph t =
     \<lparr>p_text = t, font_size = None, font_name = None, font_rgb = None, alignment = None\<rparr>"

text \<open>\<open>datetime.now().strftime('%d %B %Y')\<close>: two-digit day, full month name, year.\<close>

datatype month = January | February | March | April | May | June | July | August
  | September | October | November | December

record datetime =
  year :: nat
  month :: month
  day :: nat
  hour :: nat
  minute :: nat
  second :: nat

fun month_name :: "month \<Rightarrow> str" where
  "month_name January = py ''January''"
| "month_name February = py ''February''"
| "month_name March = py ''March''"
| "month_name April = py ''April''"
| "month_name May = py ''May''"
| "month_name June = py ''June''"
| "month_name July = py ''July''"
| "month_name August = py ''August''"
| "month_name September = py ''September''"
| "month_name October = py ''October''"
| "month_name November = py ''November''"
| "month_name December = py ''December''"

definition strftime_d_B_Y :: "datetime \<Rightarrow> str" where
  "strftime_d_B_Y dt =
     (if day dt < 10 then py ''0'' else []) @ str_nat (day dt) @ [space] @
     month_name (month dt) @ [space] @ str_nat (year dt)"

text \<open>The title slide: layout 0, the title, and the date line in placeholder 1.\<close>

definition title_slide :: "datetime \<Rightarrow> str \<Rightarrow> slide" where
  "title_slide now ppt_title =
     \<lparr>layout = 0, title_text = ppt_title,
      body = [plain_paragraph (py ''Generated on '' @ strftime_d_B_Y now)]\<rparr>"

text \<open>One bullet's paragraph: the trimmed text, 18pt, the deck's font, black, left-aligned.\<close>

definition bullet_paragraph :: "str \<Rightarrow> para" where
  "bullet_paragraph bullet =
     \<lparr>p_text = strip (strip_chars [dash, bullet_glyph, star, space] bullet),
      font_size = Some 18, font_name = Some PPT_FONT, font_rgb = Some (0, 0, 0),
      alignment = Some LEFT\<rparr>"

text \<open>
  The inner loop over \<open>enumerate(bullet_points)\<close>: the first bullet goes into the paragraph
  the cleared text frame already has, every later one into a paragraph added at the end.
\<close>

fun fill_paragraphs :: "(nat \<times> str) list \<Rightarrow> para list \<Rightarrow> para list" where
  "fill_paragraphs [] paragraphs = paragraphs"
| "fill_paragraphs ((i, bullet) # rest) paragraphs =
     fill_paragraphs rest
       (if i = 0 then paragraphs[0 := bullet_paragraph bullet]
        else paragraphs @ [bullet_paragraph bullet])"

definition content_slide :: "str \<times> str list \<Rightarrow> slide" where
  "content_slide rec =
     (case rec of (title, bullet_points) \<Rightarrow>
        \<lparr>layout = 1, title_text = title,
         body = fill_paragraphs (List.enumerate 0 bullet_points) [plain_paragraph []]\<rparr>)"

text \<open>
  The slide library does not take every string as the text of a shape or a paragraph: on
  one it cannot store, the assignment raises. Which strings it takes is not in the source
  and is the parameter \<open>accepts\<close>. \<open>texts_set\<close> lists the strings the build hands to the
  library, in the order of the calls: the title, the date line, and for every record that
  is shown its title and its trimmed bullets.
\<close>

definition texts_set :: "datetime \<Rightarrow> str \<Rightarrow> (str \<times> str list) list \<Rightarrow> str list" where
  "texts_set now ppt_title shown =
     ppt_title # (py ''Generated on '' @ strftime_d_B_Y now) #
     concat (map (\<lambda>(title, bullet_points).
                    title # map (\<lambda>bullet. p_text (bullet_paragraph bullet)) bullet_points)
               shown)"

text \<open>
  The \<open>try\<close> block of \<open>create_presentation\<close> up to the saving: \<open>Some prs\<close> with
  \<open>prs\<close> as it is when it is saved, or \<open>None\<close> when a call of the slide library has
  raised, which takes the function to its \<open>except\<close> branch before any file is created.
  The arguments \<open>model\<close> and \<open>pdf_text\<close> are not used by the function and are left
  out; the clock is an input.
\<close>

definition create_presentation_prs ::
  "(str \<Rightarrow> bool) \<Rightarrow> (nat \<Rightarrow> bool) \<Rightarrow> datetime \<Rightarrow> str \<Rightarrow> str \<Rightarrow> presentation option" where
  "create_presentation_prs accepts nd now ppt_title slide_structure =
     (let parsed_slides = parse_gemini_structure nd slide_structure;
          parsed_slides =
            (if parsed_slides = []
             then [(py ''Introduction'', [py ''Key points missing from AI output''])]
             else parsed_slides);
          shown = take MAX_SLIDES parsed_slides
      in if list_all accepts (texts_set now ppt_title shown)
         then Some \<lparr>slide_width = 12191695, slide_height = 6858000,
                     slides = title_slide now ppt_title # map content_slide shown\<rparr>
         else None)"

section \<open>Saving the deck and handing it to the download\<close>

text \<open>
  The file system maps a path to the content of the file there. What the operating system
  does is an input: the clock, the path \<open>NamedTemporaryFile\<close> creates (ending in the
  suffix asked for; \<open>None\<close> when it raises), and whether saving, reading back and
  unlinking succeed.
\<close>

datatype content = Empty | Pptx presentation

type_synonym filesystem = "str \<rightharpoonup> content"

record env =
  now :: datetime
  tmp_stem :: "str option"
  save_ok :: bool
  read_ok :: bool
  unlink_ok :: bool

text \<open>
  \<open>create_presentation\<close>: when the build has raised, the \<open>except\<close> branch returns
  \<open>None\<close> and no file has been created. Otherwise the temporary file is created with
  \<open>delete=False\<close>, the deck is saved under its name and the name is returned; an
  exception there goes to the same \<open>except\<close> branch, which returns \<open>None\<close> and
  removes nothing.
\<close>

definition create_presentation ::
  "(str \<Rightarrow> bool) \<Rightarrow> (nat \<Rightarrow> bool) \<Rightarrow> env \<Rightarrow> filesystem \<Rightarrow> str \<Rightarrow> str \<Rightarrow>
   str option \<times> filesystem" where
  "create_presentation accepts nd e fs ppt_title slide_structure =
     (case create_presentation_prs accepts nd (now e) ppt_title slide_structure of
        None \<Rightarrow> (None, fs)
      | Some prs \<Rightarrow>
          (case tmp_stem e of
             None \<Rightarrow> (None, fs)
           | Some stem \<Rightarrow>
               (let name = stem @ py ''.pptx''; fs1 = fs(name \<mapsto> Empty)
                in if save_ok e then (Some name, fs1(name \<mapsto> Pptx prs)) else (None, fs1))))"

text \<open>
  The \<open>Generate PowerPoint\<close> branch of \<open>main\<close>: what the user is offered, or that
  reading the file raised (nothing in \<open>main\<close> catches that), or nothing.
\<close>

datatype outcome = NoArtifact | ReadRaised | Download content str

definition main_generate ::
  "(str \<Rightarrow> bool) \<Rightarrow> (nat \<Rightarrow> bool) \<Rightarrow> env \<Rightarrow> filesystem \<Rightarrow> str \<Rightarrow> str \<Rightarrow>
   outcome \<times> filesystem" where
  "main_generate accepts nd e fs ppt_title edited_structure =
     (case create_presentation accepts nd e fs ppt_title edited_structure of
        (None, fs1) \<Rightarrow> (NoArtifact, fs1)
      | (Some ppt_path, fs1) \<Rightarrow>
          if ppt_path = [] then (NoArtifact, fs1)
          else if read_ok e then
            (case fs1 ppt_path of
               None \<Rightarrow> (ReadRaised, fs1)
             | Some ppt_bytes \<Rightarrow>
                 (Download ppt_bytes
                    (map (\<lambda>c. if c = space then 95 else c) ppt_title @ py ''.pptx''),
                  if unlink_ok e then fs1(ppt_path := None) else fs1))
          else (ReadRaised, fs1))"

section \<open>\<open>extract_text_from_pdf\<close>\<close>

text \<open>
  What a PDF library makes of the uploaded stream: opening it raises (\<open>None\<close>) or gives
  pages, and \<open>extract_text\<close> on a page raises or returns a text or \<open>None\<close>. The warnings
  shown for a library's exception do not reach the result and are left out.
\<close>

datatype page = ExtractRaises | ExtractReturns "str option"

record pdf_file =
  pdfplumber_pages :: "page list option"
  pypdf2_pages :: "page list option"

text \<open>
  The page loop, the same for both libraries. An exception ends it and keeps the text
  gathered so far.
\<close>

fun extract_pages :: "nat \<Rightarrow> page list \<Rightarrow> str \<Rightarrow> str" where
  "extract_pages i [] text = text"
| "extract_pages i (ExtractRaises # pages) text = text"
| "extract_pages i (ExtractReturns page_text # pages) text =
     (let text = (case page_text of
                    None \<Rightarrow> text
                  | Some t \<Rightarrow>
                      if t = [] then text
                      else text @ [newline, newline] @ py ''[Page '' @ str_nat (i + 1) @
                           py '']'' @ [newline] @ t)
      in if length text > PROCESSING_CHUNK_SIZE then text
         else extract_pages (i + 1) pages text)"

definition extracted_text :: "pdf_file \<Rightarrow> str" where
  "extracted_text f =
     (let text = (case pdfplumber_pages f of
                    None \<Rightarrow> []
                  | Some pages \<Rightarrow> extract_pages 0 pages [])
      in if length text < MIN_CONTENT_LENGTH then
           (case pypdf2_pages f of
              None \<Rightarrow> text
            | Some pages \<Rightarrow> extract_pages 0 pages text)
         else text)"

definition extract_text_from_pdf :: "pdf_file \<Rightarrow> str option \<times> str option" where
  "extract_text_from_pdf f =
     (let text = extracted_text f
      in if length text > MIN_CONTENT_LENGTH then (Some text, None)
         else (None, Some (py ''Failed to extract sufficient text (document may be scanned)'')))"

section \<open>Notions used in the statements\<close>

text \<open>
  A bullet text as a line of the outline carries it: not empty, not starting with
  whitespace, and without a newline.
\<close>

definition bullet_text_ok :: "str \<Rightarrow> bool" where
  "bullet_text_ok b = (b \<noteq> [] \<and> \<not> isspace (hd b) \<and> newline \<notin> set b)"

text \<open>The textual content of a deck: for every slide its title and its paragraphs' texts.\<close>

definition deck_text :: "presentation \<Rightarrow> (str \<times> str list) list" where
  "deck_text prs = map (\<lambda>s. (title_text s, map p_text (body s))) (slides prs)"

section \<open>Properties of the outline parser\<close>

subsection \<open>Fragments and headers\<close>

lemma re_split_header_nonempty: "re_split_header nd s \<noteq> []"
  by (induction nd s rule: re_split_header.induct)
     (auto split: option.splits list.splits)

lemma length_re_split_header:
  "length (re_split_header nd s) = Suc (length (re_findall_header nd s))"
  by (induction nd s rule: re_findall_header.induct)
     (auto split: option.splits list.splits simp: re_split_header_nonempty)

lemma splice_split_findall:
  "concat (splice (re_split_header nd s) (re_findall_header nd s)) = s"
proof (induction nd s rule: re_findall_header.induct)
  case (1 nd)
  show ?case by simp
next
  case (2 nd c cs)
  show ?case
  proof (cases "match_header nd (c # cs)")
    case None
    obtain p ps where sp: "re_split_header nd cs = p # ps"
      using re_split_header_nonempty [of nd cs] by (cases "re_split_header nd cs") auto
    from 2(1) [OF None] sp have "concat (splice (p # ps) (re_findall_header nd cs)) = cs"
      by simp
    then have "concat (splice ((c # p) # ps) (re_findall_header nd cs)) = c # cs"
      by (cases "re_findall_header nd cs") auto
    with None sp show ?thesis by simp
  next
    case (Some a)
    obtain m rest where a: "a = (m, rest)" by (cases a)
    from Some a have eq: "m @ rest = c # cs"
      using match_header_splits [of nd "c # cs" m rest] by simp
    from 2(2) [OF Some a [symmetric]]
    have ih: "concat (splice (re_split_header nd rest) (re_findall_header nd rest)) = rest" .
    have "concat (splice (re_split_header nd (c # cs)) (re_findall_header nd (c # cs)))
          = m @ concat (splice (re_split_header nd rest) (re_findall_header nd rest))"
      using Some a by simp
    then show ?thesis
      using ih eq by simp
  qed
qed

lemma lazy_dots_stars_self:
  "lazy_dots_stars s = Some (m, rest) \<Longrightarrow> lazy_dots_stars m = Some (m, [])"
proof (induction s arbitrary: m rest rule: lazy_dots_stars.induct)
  case (1 c d cs)
  show ?case
  proof (cases "c = star \<and> d = star")
    case True
    with 1(2) show ?thesis by auto
  next
    case False
    with 1(2) have nl: "c \<noteq> newline" by (auto split: if_splits)
    with False 1(2) obtain m' where l: "lazy_dots_stars (d # cs) = Some (m', rest)" and m: "m = c # m'"
      by (auto split: if_splits)
    from 1(1) [OF False nl l] have self: "lazy_dots_stars m' = Some (m', [])" .
    from l have "d # cs = m' @ rest \<and> m' \<noteq> []" by (rule lazy_dots_stars_splits)
    then obtain m'' where m': "m' = d # m''" by (cases m') auto
    with self have "m'' \<noteq> []" by (cases m'') auto
    then obtain e m3 where "m'' = e # m3" by (cases m'') auto
    with m' self m False nl show ?thesis by auto
  qed
qed simp_all

lemma match_header_self:
  assumes "match_header nd s = Some (m, rest)"
  shows "match_header nd m = Some (m, [])"
proof -
  from assms have p: "prefix (py ''**Slide '') s"
    by (auto simp: match_header_def split: if_splits)
  then obtain r where s: "s = py ''**Slide '' @ r"
    by (auto simp: prefix_def)
  have len: "length (py ''**Slide '') = 8"
    by (simp add: py_def)
  from s len have r: "drop 8 s = r"
    by simp
  define ds where "ds = takeWhile (isdecimal nd) r"
  from assms p r obtain m' r' where
    ne: "ds \<noteq> []" and
    d: "dropWhile (isdecimal nd) r = colon # r'" and
    l: "lazy_dots_stars r' = Some (m', rest)" and
    m: "m = py ''**Slide '' @ ds @ [colon] @ m'"
    by (auto simp: match_header_def Let_def ds_def split: if_splits list.splits option.splits)
  have nc: "\<not> isdecimal nd colon"
    by (simp add: isdecimal_def)
  have all: "\<forall>x\<in>set ds. isdecimal nd x"
    unfolding ds_def by (auto dest: set_takeWhileD)
  have tw: "takeWhile (isdecimal nd) (ds @ colon # m') = ds"
    using all nc by (simp add: takeWhile_append2)
  have dw: "dropWhile (isdecimal nd) (ds @ colon # m') = colon # m'"
    using all nc by (simp add: dropWhile_append2)
  have dr: "drop 8 m = ds @ colon # m'"
    using m len by simp
  have pm: "prefix (py ''**Slide '') m"
    using m by simp
  from l have "lazy_dots_stars m' = Some (m', [])"
    by (rule lazy_dots_stars_self)
  with pm dr tw dw ne m show ?thesis
    by (simp add: match_header_def Let_def)
qed

lemma re_findall_header_match:
  "list_all (\<lambda>h. match_header nd h = Some (h, [])) (re_findall_header nd s)"
  by (induction nd s rule: re_findall_header.induct)
     (auto split: option.splits dest: match_header_self)

lemma parse_gemini_structure_map:
  "parse_gemini_structure nd t =
     map (\<lambda>(i, content). slide_record i content) (List.enumerate 0 (tl (re_split_header nd t)))"
proof -
  let ?sl = "re_split_header nd t" and ?hd = "re_findall_header nd t"
  have len: "length ?sl = Suc (length ?hd)" by (rule length_re_split_header)
  show ?thesis
    unfolding parse_gemini_structure_def Let_def
    by (rule nth_equalityI) (simp_all add: len nth_enumerate_eq nth_tl)
qed

text \<open>
  C1. For a text in which the scan finds K headers, \<open>parse_gemini_structure\<close> returns K
  records. Every header found matches the header pattern as a whole; the fragments and
  the headers, taken in turn, make up the text again; and the records are the records of
  the fragments behind each header, in the order of the headers (the fragment before the
  first header is dropped). For the empty text the result is the empty list.
\<close>

theorem parse_one_record_per_header:
  "length (parse_gemini_structure nd t) = length (re_findall_header nd t) \<and>
   list_all (\<lambda>h. match_header nd h = Some (h, [])) (re_findall_header nd t) \<and>
   concat (splice (re_split_header nd t) (re_findall_header nd t)) = t \<and>
   parse_gemini_structure nd t =
     map (\<lambda>(i, content). slide_record i content)
       (List.enumerate 0 (tl (re_split_header nd t))) \<and>
   parse_gemini_structure nd [] = []"
proof -
  have "length (parse_gemini_structure nd t) = length (re_findall_header nd t)"
    by (simp add: parse_gemini_structure_def Let_def)
  moreover have "parse_gemini_structure nd [] = []"
    by (simp add: parse_gemini_structure_def)
  ultimately show ?thesis
    using re_findall_header_match [of nd t] splice_split_findall [of nd t]
      parse_gemini_structure_map [of nd t]
    by blast
qed

subsection \<open>Titles\<close>

lemma after_title_label_None:
  "after_title_label s = None \<longleftrightarrow> \<not> sublist (py ''**Title:**'') s"
proof (induction s)
  case Nil
  show ?case by (simp add: py_def)
next
  case (Cons c cs)
  show ?case
    using Cons.IH by (simp add: sublist_Cons_right)
qed

lemma after_title_label_Some:
  "after_title_label s = Some r \<Longrightarrow> \<exists>pre. s = pre @ py ''**Title:**'' @ r"
proof (induction s)
  case Nil
  then show ?case by simp
next
  case (Cons c cs)
  show ?case
  proof (cases "prefix (py ''**Title:**'') (c # cs)")
    case True
    then obtain z where z: "c # cs = py ''**Title:**'' @ z"
      by (auto simp: prefix_def)
    have "length (py ''**Title:**'') = 10" by (simp add: py_def)
    with z have "drop 10 (c # cs) = z" by simp
    with True Cons.prems have "r = z" by simp
    with z have "c # cs = [] @ py ''**Title:**'' @ r" by simp
    then show ?thesis by blast
  next
    case False
    with Cons.prems have "after_title_label cs = Some r" by simp
    from Cons.IH [OF this] obtain pre where "cs = pre @ py ''**Title:**'' @ r" ..
    then have "c # cs = (c # pre) @ py ''**Title:**'' @ r" by simp
    then show ?thesis by blast
  qed
qed

lemma fst_slide_record:
  "fst (slide_record i content) =
     (case after_title_label content of
        None \<Rightarrow> py ''Slide '' @ str_nat (i + 2)
      | Some r \<Rightarrow> strip (takeWhile (\<lambda>x. x \<noteq> newline) (dropWhile isspace r)))"
  by (simp add: slide_record_def re_search_title_def Let_def split: option.splits)

lemma snd_slide_record: "snd (slide_record i content) = re_findall_bullets content"
  by (simp add: slide_record_def Let_def)

lemma parse_gemini_structure_nth:
  assumes "i < length (re_findall_header nd t)"
  shows "parse_gemini_structure nd t ! i = slide_record i (re_split_header nd t ! Suc i)"
  using assms
  by (simp add: parse_gemini_structure_map length_re_split_header nth_enumerate_eq nth_tl)

lemma dropWhile_isspace_Nil: "dropWhile isspace s = [] \<longleftrightarrow> list_all isspace s"
  by (simp add: dropWhile_eq_Nil_conv list_all_iff)

lemma strip_eq_Nil: "strip s = [] \<longleftrightarrow> list_all isspace s"
proof (cases "dropWhile isspace s")
  case Nil
  then have "list_all isspace s"
    by (simp only: dropWhile_isspace_Nil)
  moreover have "strip s = []"
    unfolding strip_def Nil by simp
  ultimately show ?thesis by simp
next
  case (Cons x xs)
  then have "\<not> isspace x"
    by (metis hd_dropWhile list.sel(1) list.distinct(1))
  moreover have "x \<in> set (rev (dropWhile isspace s))"
    using Cons by simp
  ultimately have "dropWhile isspace (rev (dropWhile isspace s)) \<noteq> []"
    by (metis dropWhile_eq_Nil_conv)
  moreover have "\<not> list_all isspace s"
    using Cons dropWhile_isspace_Nil [of s] by simp
  ultimately show ?thesis
    by (simp add: strip_def)
qed

lemma group_all_space:
  "list_all isspace (takeWhile (\<lambda>x. x \<noteq> newline) (dropWhile isspace r)) \<longleftrightarrow> list_all isspace r"
proof (cases "dropWhile isspace r")
  case Nil
  then have "list_all isspace r"
    by (simp only: dropWhile_isspace_Nil)
  moreover have "takeWhile (\<lambda>x. x \<noteq> newline) (dropWhile isspace r) = []"
    unfolding Nil by simp
  ultimately show ?thesis by simp
next
  case (Cons x xs)
  then have nsp: "\<not> isspace x"
    by (metis hd_dropWhile list.sel(1) list.distinct(1))
  have "isspace newline" by (simp add: isspace_def)
  with nsp have "x \<noteq> newline" by auto
  with Cons nsp have "\<not> list_all isspace (takeWhile (\<lambda>x. x \<noteq> newline) (dropWhile isspace r))"
    by simp
  moreover have "\<not> list_all isspace r"
    using Cons dropWhile_isspace_Nil [of r] by simp
  ultimately show ?thesis by simp
qed

lemma slide_record_title_empty:
  "fst (slide_record i content) = [] \<longleftrightarrow>
     (\<exists>r. after_title_label content = Some r \<and> list_all isspace r)"
  by (cases "after_title_label content")
     (simp_all add: fst_slide_record strip_eq_Nil group_all_space py_def)

lemmas eval_parse =
  parse_gemini_structure_def slide_record_def re_search_title_def match_header_def
  match_bullet_def isdecimal_def isspace_def strip_def py_def Let_def

text \<open>
  C5. A fragment in which the label \<open>**Title:**\<close> does not occur (in particular one
  with no \<open>Title:\<close> at all) gives a record whose title is \<open>Slide\<close> followed by the
  fragment's zero-based index plus two.
\<close>

theorem placeholder_title_without_label:
  assumes "i < length (re_findall_header nd t)"
    and "\<not> sublist (py ''**Title:**'') (re_split_header nd t ! Suc i)"
  shows "fst (parse_gemini_structure nd t ! i) = py ''Slide '' @ str_nat (i + 2)"
proof -
  from assms(2) have "after_title_label (re_split_header nd t ! Suc i) = None"
    by (simp add: after_title_label_None)
  with assms(1) show ?thesis
    by (simp add: parse_gemini_structure_nth fst_slide_record)
qed

theorem placeholder_title_without_label_witness:
  "0 < length (re_findall_header (\<lambda>_. False) (py ''**Slide 1: a**'' @ [newline] @ py ''* x'')) \<and>
   \<not> sublist (py ''**Title:**'')
       (re_split_header (\<lambda>_. False) (py ''**Slide 1: a**'' @ [newline] @ py ''* x'') ! Suc 0) \<and>
   fst (parse_gemini_structure (\<lambda>_. False) (py ''**Slide 1: a**'' @ [newline] @ py ''* x'') ! 0)
     = py ''Slide 2''"
proof -
  let ?t = "py ''**Slide 1: a**'' @ [newline] @ py ''* x''"
  have h1: "0 < length (re_findall_header (\<lambda>_. False) ?t)"
    by (simp add: eval_parse)
  have "after_title_label (re_split_header (\<lambda>_. False) ?t ! Suc 0) = None"
    by (simp add: eval_parse)
  then have h2: "\<not> sublist (py ''**Title:**'') (re_split_header (\<lambda>_. False) ?t ! Suc 0)"
    by (rule iffD1 [OF after_title_label_None])
  have "str_nat (0 + 2) = py ''2''"
    by (simp add: str_nat.simps py_def)
  with placeholder_title_without_label [OF h1 h2] h1 h2 show ?thesis
    by (simp add: py_def)
qed

lemma title_label_snoc: "py ''**Title:**'' = py ''**Title:*'' @ [star]"
  by (simp add: py_def)

lemma title_label_not_in_shorter: "\<not> sublist (py ''**Title:**'') (py ''**Title:*'')"
proof
  assume "sublist (py ''**Title:**'') (py ''**Title:*'')"
  then have "length (py ''**Title:**'') \<le> length (py ''**Title:*'')"
    by (rule sublist_length_le)
  then show False
    by (simp add: py_def)
qed

lemma after_title_label_leftmost:
  "after_title_label s = Some r \<Longrightarrow>
   \<exists>pre. s = pre @ py ''**Title:**'' @ r \<and> \<not> sublist (py ''**Title:**'') (pre @ py ''**Title:*'')"
proof (induction s)
  case Nil
  then show ?case by simp
next
  case (Cons c cs)
  show ?case
  proof (cases "prefix (py ''**Title:**'') (c # cs)")
    case True
    then obtain z where z: "c # cs = py ''**Title:**'' @ z"
      by (auto simp: prefix_def)
    have "length (py ''**Title:**'') = 10" by (simp add: py_def)
    with z have "drop 10 (c # cs) = z" by simp
    with True Cons.prems have "r = z" by simp
    with z have "c # cs = [] @ py ''**Title:**'' @ r" by simp
    moreover have "\<not> sublist (py ''**Title:**'') ([] @ py ''**Title:*'')"
      using title_label_not_in_shorter by simp
    ultimately show ?thesis by blast
  next
    case False
    with Cons.prems have "after_title_label cs = Some r" by simp
    from Cons.IH [OF this] obtain pre where
      cs: "cs = pre @ py ''**Title:**'' @ r" and
      no: "\<not> sublist (py ''**Title:**'') (pre @ py ''**Title:*'')"
      by blast
    have "\<not> prefix (py ''**Title:**'') (c # pre @ py ''**Title:*'')"
    proof
      assume "prefix (py ''**Title:**'') (c # pre @ py ''**Title:*'')"
      then have "prefix (py ''**Title:**'') ((c # pre @ py ''**Title:*'') @ [star] @ r)"
        by (rule prefix_prefix)
      with cs False show False
        by (simp add: title_label_snoc)
    qed
    with no have "\<not> sublist (py ''**Title:**'') ((c # pre) @ py ''**Title:*'')"
      by (simp add: sublist_Cons_right)
    moreover from cs have "c # cs = (c # pre) @ py ''**Title:**'' @ r" by simp
    ultimately show ?thesis by blast
  qed
qed

lemma after_title_label_at:
  assumes "s = pre @ py ''**Title:**'' @ r"
    and "\<not> sublist (py ''**Title:**'') (pre @ py ''**Title:*'')"
  shows "after_title_label s = Some r"
  using assms
proof (induction pre arbitrary: s)
  case Nil
  have "length (py ''**Title:**'') = 10" by (simp add: py_def)
  then have d: "drop 10 (py ''**Title:**'' @ r) = r" by simp
  obtain c cs where l: "py ''**Title:**'' @ r = c # cs"
    by (cases "py ''**Title:**'' @ r") (simp_all add: py_def)
  have "prefix (py ''**Title:**'') (c # cs)"
    unfolding l [symmetric] by simp
  then have "after_title_label (c # cs) = Some (drop 10 (c # cs))"
    by simp
  with l d Nil.prems(1) show ?case by simp
next
  case (Cons c pre)
  from Cons.prems(2) have np: "\<not> prefix (py ''**Title:**'') (c # pre @ py ''**Title:*'')"
    and no: "\<not> sublist (py ''**Title:**'') (pre @ py ''**Title:*'')"
    by (simp_all add: sublist_Cons_right)
  have s: "s = (c # pre @ py ''**Title:*'') @ [star] @ r"
    using Cons.prems(1) by (simp add: title_label_snoc)
  have "\<not> prefix (py ''**Title:**'') s"
  proof
    assume p: "prefix (py ''**Title:**'') s"
    have q: "prefix (c # pre @ py ''**Title:*'') s"
      unfolding s by simp
    have "length (py ''**Title:**'') \<le> length (c # pre @ py ''**Title:*'')"
      by (simp add: py_def)
    with p q have "prefix (py ''**Title:**'') (c # pre @ py ''**Title:*'')"
      by (rule prefix_length_prefix)
    with np show False ..
  qed
  moreover have "s = c # (pre @ py ''**Title:**'' @ r)"
    using Cons.prems(1) by simp
  ultimately have "after_title_label s = after_title_label (pre @ py ''**Title:**'' @ r)"
    by simp
  also have "\<dots> = Some r"
    using no by (intro Cons.IH) simp_all
  finally show ?case .
qed

text \<open>
  C6 as stated fails: a header followed by a bare \<open>**Title:**\<close> label gives one record
  whose title is the empty string.
\<close>

theorem empty_title_counterexample:
  "parse_gemini_structure (\<lambda>_. False) (py ''**Slide 1: x**'' @ [newline] @ py ''**Title:**'')
     = [([], [])]"
  by (simp add: eval_parse)

text \<open>
  C6, as amended. The title of a record is decided by the leftmost \<open>**Title:**\<close> label
  of its fragment. When the fragment has no such label, the title is the placeholder
  \<open>Slide\<close> followed by the fragment's index plus two. When it has one, the title is the
  text behind the leftmost label, with the whitespace directly behind the label skipped
  (newlines too), taken up to the end of that line and stripped of the whitespace at both
  ends. The title is the empty string exactly when the leftmost label is followed by
  nothing but whitespace up to the end of the fragment; in every other case it is not
  empty. (That a label is the leftmost one is said by: the label does not occur in the
  text before it extended by the label's first nine characters.)
\<close>

theorem title_of_record_by_label:
  assumes "i < length (re_findall_header nd t)"
  shows "(\<not> sublist (py ''**Title:**'') (re_split_header nd t ! Suc i) \<longrightarrow>
            fst (parse_gemini_structure nd t ! i) = py ''Slide '' @ str_nat (i + 2)) \<and>
         (sublist (py ''**Title:**'') (re_split_header nd t ! Suc i) \<longrightarrow>
            (\<exists>pre r. re_split_header nd t ! Suc i = pre @ py ''**Title:**'' @ r \<and>
                      \<not> sublist (py ''**Title:**'') (pre @ py ''**Title:*''))) \<and>
         (\<forall>pre r. re_split_header nd t ! Suc i = pre @ py ''**Title:**'' @ r \<and>
                   \<not> sublist (py ''**Title:**'') (pre @ py ''**Title:*'') \<longrightarrow>
                   fst (parse_gemini_structure nd t ! i) =
                     strip (takeWhile (\<lambda>x. x \<noteq> newline) (dropWhile isspace r))) \<and>
         (fst (parse_gemini_structure nd t ! i) = []) =
           (\<exists>pre ws. re_split_header nd t ! Suc i = pre @ py ''**Title:**'' @ ws \<and>
                      \<not> sublist (py ''**Title:**'') (pre @ py ''**Title:*'') \<and>
                      list_all isspace ws)"
proof -
  let ?F = "re_split_header nd t ! Suc i"
  let ?T = "fst (parse_gemini_structure nd t ! i)"
  have T: "?T = fst (slide_record i ?F)"
    using assms by (simp add: parse_gemini_structure_nth)
  have a: "\<not> sublist (py ''**Title:**'') ?F \<longrightarrow> ?T = py ''Slide '' @ str_nat (i + 2)"
    by (simp add: T fst_slide_record after_title_label_None [symmetric])
  have b: "sublist (py ''**Title:**'') ?F \<longrightarrow>
            (\<exists>pre r. ?F = pre @ py ''**Title:**'' @ r \<and>
                      \<not> sublist (py ''**Title:**'') (pre @ py ''**Title:*''))"
  proof
    assume "sublist (py ''**Title:**'') ?F"
    then have "after_title_label ?F \<noteq> None"
      by (simp add: after_title_label_None)
    then obtain r where "after_title_label ?F = Some r"
      by auto
    from after_title_label_leftmost [OF this]
    show "\<exists>pre r. ?F = pre @ py ''**Title:**'' @ r \<and>
                   \<not> sublist (py ''**Title:**'') (pre @ py ''**Title:*'')"
      by blast
  qed
  have c: "\<forall>pre r. ?F = pre @ py ''**Title:**'' @ r \<and>
                   \<not> sublist (py ''**Title:**'') (pre @ py ''**Title:*'') \<longrightarrow>
                   ?T = strip (takeWhile (\<lambda>x. x \<noteq> newline) (dropWhile isspace r))"
  proof (intro allI impI)
    fix pre r
    assume "?F = pre @ py ''**Title:**'' @ r \<and>
            \<not> sublist (py ''**Title:**'') (pre @ py ''**Title:*'')"
    then have "after_title_label ?F = Some r"
      using after_title_label_at [of ?F pre r] by blast
    then show "?T = strip (takeWhile (\<lambda>x. x \<noteq> newline) (dropWhile isspace r))"
      by (simp add: T fst_slide_record)
  qed
  have d: "(?T = []) =
           (\<exists>pre ws. ?F = pre @ py ''**Title:**'' @ ws \<and>
                      \<not> sublist (py ''**Title:**'') (pre @ py ''**Title:*'') \<and>
                      list_all isspace ws)"
  proof
    assume "?T = []"
    then obtain ws where w: "after_title_label ?F = Some ws" and sp: "list_all isspace ws"
      using slide_record_title_empty [of i ?F] by (auto simp: T)
    from after_title_label_leftmost [OF w] sp
    show "\<exists>pre ws. ?F = pre @ py ''**Title:**'' @ ws \<and>
                    \<not> sublist (py ''**Title:**'') (pre @ py ''**Title:*'') \<and>
                    list_all isspace ws"
      by blast
  next
    assume "\<exists>pre ws. ?F = pre @ py ''**Title:**'' @ ws \<and>
                    \<not> sublist (py ''**Title:**'') (pre @ py ''**Title:*'') \<and>
                    list_all isspace ws"
    then obtain pre ws where "?F = pre @ py ''**Title:**'' @ ws"
      and "\<not> sublist (py ''**Title:**'') (pre @ py ''**Title:*'')" and sp: "list_all isspace ws"
      by blast
    then have "after_title_label ?F = Some ws"
      using after_title_label_at [of ?F pre ws] by blast
    with sp show "?T = []"
      using slide_record_title_empty [of i ?F] by (auto simp: T)
  qed
  from a b c d show ?thesis
    by blast
qed

theorem title_of_record_by_label_witness:
  "0 < length (re_findall_header (\<lambda>_. False)
                (py ''**Slide 3: x**'' @ [newline] @ py ''**Title:**  Q3 results '' @ [newline] @
                 py ''* a'')) \<and>
   re_split_header (\<lambda>_. False)
     (py ''**Slide 3: x**'' @ [newline] @ py ''**Title:**  Q3 results '' @ [newline] @
      py ''* a'') ! Suc 0
     = [newline] @ py ''**Title:**'' @ (py ''  Q3 results '' @ [newline] @ py ''* a'') \<and>
   \<not> sublist (py ''**Title:**'') ([newline] @ py ''**Title:*'') \<and>
   fst (parse_gemini_structure (\<lambda>_. False)
          (py ''**Slide 3: x**'' @ [newline] @ py ''**Title:**  Q3 results '' @ [newline] @
           py ''* a'') ! 0) = py ''Q3 results''"
proof -
  let ?t = "py ''**Slide 3: x**'' @ [newline] @ py ''**Title:**  Q3 results '' @ [newline] @
            py ''* a''"
  let ?r = "py ''  Q3 results '' @ [newline] @ py ''* a''"
  have h1: "0 < length (re_findall_header (\<lambda>_. False) ?t)"
    by (simp add: eval_parse)
  have h2: "re_split_header (\<lambda>_. False) ?t ! Suc 0 = [newline] @ py ''**Title:**'' @ ?r"
    by (simp add: eval_parse)
  have h3: "\<not> sublist (py ''**Title:**'') ([newline] @ py ''**Title:*'')"
    using title_label_not_in_shorter
    by (simp add: sublist_Cons_right) (simp add: py_def)
  have v: "strip (takeWhile (\<lambda>x. x \<noteq> newline) (dropWhile isspace ?r)) = py ''Q3 results''"
    by (simp add: strip_def isspace_def py_def)
  from title_of_record_by_label [OF h1] h2 h3
  have "fst (parse_gemini_structure (\<lambda>_. False) ?t ! 0)
        = strip (takeWhile (\<lambda>x. x \<noteq> newline) (dropWhile isspace ?r))"
    by blast
  with v h1 h2 h3 show ?thesis
    by simp
qed

subsection \<open>Bullets\<close>

lemma re_findall_bullets_skip:
  "star \<notin> set pre \<Longrightarrow> re_findall_bullets (pre @ s) = re_findall_bullets s"
  by (induction pre) (auto simp: match_bullet_def)

lemma match_bullet_line:
  assumes "b \<noteq> []" and "\<not> isspace (hd b)" and "newline \<notin> set b"
  shows "match_bullet (star # space # b @ newline # rest) = Some (b, newline # rest)"
proof -
  obtain x xs where b: "b = x # xs"
    using assms(1) by (cases b) auto
  have sp: "isspace space"
    by (simp add: isspace_def)
  have dw: "dropWhile isspace (space # b @ newline # rest) = b @ newline # rest"
    using assms(2) sp b by simp
  have all: "\<forall>c\<in>set b. c \<noteq> newline"
    using assms(3) by auto
  have tw: "takeWhile (\<lambda>c. c \<noteq> newline) (b @ newline # rest) = b"
    using all by (simp add: takeWhile_append2)
  have dr: "dropWhile (\<lambda>c. c \<noteq> newline) (b @ newline # rest) = newline # rest"
    using all by (simp add: dropWhile_append2)
  have ne: "takeWhile isspace (space # b @ newline # rest) \<noteq> []"
    using sp by simp
  show ?thesis
    unfolding match_bullet_def using ne dw tw dr by (simp add: Let_def)
qed

lemma re_findall_bullets_line:
  assumes "star \<notin> set pre" and "bullet_text_ok b"
  shows "re_findall_bullets (pre @ py ''* '' @ b @ newline # rest) = b # re_findall_bullets rest"
proof -
  have "re_findall_bullets (pre @ py ''* '' @ b @ newline # rest)
        = re_findall_bullets (star # space # b @ newline # rest)"
    using re_findall_bullets_skip [OF assms(1)] by (simp add: py_def)
  also have "\<dots> = b # re_findall_bullets (newline # rest)"
    using match_bullet_line [of b rest] assms(2) by (simp add: bullet_text_ok_def)
  also have "re_findall_bullets (newline # rest) = re_findall_bullets rest"
    by (simp add: match_bullet_def)
  finally show ?thesis .
qed

lemma re_findall_bullets_lines:
  assumes "star \<notin> set pre" and "list_all bullet_text_ok bs"
  shows "re_findall_bullets (concat (map (\<lambda>b. pre @ py ''* '' @ b @ [newline]) bs) @ rest)
         = bs @ re_findall_bullets rest"
  using assms(2)
proof (induction bs)
  case Nil
  show ?case by simp
next
  case (Cons b bs)
  then have ok: "bullet_text_ok b" and IH:
    "re_findall_bullets (concat (map (\<lambda>b. pre @ py ''* '' @ b @ [newline]) bs) @ rest)
     = bs @ re_findall_bullets rest"
    by simp_all
  show ?case
    using re_findall_bullets_line [OF assms(1) ok] IH by simp
qed

lemma fill_paragraphs_append:
  "fill_paragraphs (List.enumerate (Suc n) bs) ps = ps @ map bullet_paragraph bs"
  by (induction bs arbitrary: n ps) simp_all

lemma body_content_slide:
  "body (content_slide (title, bullet_points)) =
     (if bullet_points = [] then [plain_paragraph []] else map bullet_paragraph bullet_points)"
  by (cases bullet_points) (simp_all add: content_slide_def fill_paragraphs_append)


lemma strip_both_ends:
  assumes "r = rev (dropWhile P (rev (dropWhile P s)))" and "r \<noteq> []"
  shows "\<not> P (hd r) \<and> \<not> P (last r)"
proof -
  let ?d = "dropWhile P s"
  let ?e = "dropWhile P (rev ?d)"
  from assms have e: "?e \<noteq> []" by simp
  then have he: "\<not> P (hd ?e)"
    by (rule hd_dropWhile)
  have d: "?d \<noteq> []"
  proof
    assume "?d = []"
    then have "?e = []" by (simp only: rev.simps dropWhile.simps)
    with e show False ..
  qed
  then have hd_d: "\<not> P (hd ?d)"
    by (rule hd_dropWhile)
  have "rev ?d = takeWhile P (rev ?d) @ ?e"
    by simp
  with e have "last (rev ?d) = last ?e"
    by (metis last_appendR)
  with d have "last ?e = hd ?d"
    by (simp add: last_rev)
  with e assms(1) have "hd r = hd ?d"
    by (simp add: hd_rev)
  moreover from e assms(1) have "last r = hd ?e"
    by (simp add: last_rev)
  ultimately show ?thesis
    using he hd_d by simp
qed

lemma strip_no_surrounding_space:
  "strip s = [] \<or> (\<not> isspace (hd (strip s)) \<and> \<not> isspace (last (strip s)))"
  using strip_both_ends [of "strip s" isspace s] by (auto simp: strip_def)

lemma strip_chars_no_surrounding_chars:
  "strip_chars chars s = [] \<or>
   (hd (strip_chars chars s) \<notin> set chars \<and> last (strip_chars chars s) \<notin> set chars)"
  using strip_both_ends [of "strip_chars chars s" "\<lambda>c. c \<in> set chars" s]
  by (auto simp: strip_chars_def)

lemma strip_unchanged:
  assumes "q = [] \<or> (\<not> isspace (hd q) \<and> \<not> isspace (last q))"
  shows "strip q = q"
proof (cases q)
  case Nil
  then show ?thesis by (simp add: strip_def)
next
  case (Cons x xs)
  with assms have h: "\<not> isspace (hd q)" and l: "\<not> isspace (last q)"
    by simp_all
  from Cons h have d: "dropWhile isspace q = q"
    by simp
  from Cons have "rev q \<noteq> []" by simp
  then obtain y ys where r: "rev q = y # ys"
    by (cases "rev q") auto
  then have "y = last q"
    using Cons by (metis hd_rev list.sel(1) list.distinct(1))
  with l have "dropWhile isspace (y # ys) = y # ys"
    by simp
  then have "dropWhile isspace (rev q) = rev q"
    unfolding r .
  with d show ?thesis
    by (simp add: strip_def)
qed

lemma p_text_bullet_paragraph:
  "p_text (bullet_paragraph bullet) = strip (strip_chars [dash, bullet_glyph, star, space] bullet)"
  by (simp add: bullet_paragraph_def)

lemma create_presentation_prs_eq:
  "create_presentation_prs accepts nd clock ppt_title slide_structure =
     (if list_all accepts
           (texts_set clock ppt_title
              (take MAX_SLIDES
                 (if parse_gemini_structure nd slide_structure = []
                  then [(py ''Introduction'', [py ''Key points missing from AI output''])]
                  else parse_gemini_structure nd slide_structure)))
      then Some \<lparr>slide_width = 12191695, slide_height = 6858000,
                  slides = title_slide clock ppt_title #
                    map content_slide
                      (take MAX_SLIDES
                         (if parse_gemini_structure nd slide_structure = []
                          then [(py ''Introduction'', [py ''Key points missing from AI output''])]
                          else parse_gemini_structure nd slide_structure))\<rparr>
      else None)"
  by (simp add: create_presentation_prs_def Let_def)

lemma slides_create_presentation_prs:
  assumes "create_presentation_prs accepts nd clock ppt_title slide_structure = Some prs"
  shows "slides prs =
           title_slide clock ppt_title #
           map content_slide
             (take MAX_SLIDES
                (if parse_gemini_structure nd slide_structure = []
                 then [(py ''Introduction'', [py ''Key points missing from AI output''])]
                 else parse_gemini_structure nd slide_structure))"
  using assms by (auto simp: create_presentation_prs_eq split: if_splits)

text \<open>
  C7 as stated fails: the two strips are applied once each, in this order, so a dash that
  the whitespace strip uncovers stays. The outline line \<open>* -<TAB>- x\<close> is one bullet,
  and its paragraph reads \<open>- x\<close>.
\<close>

theorem dash_left_after_trimming_counterexample:
  "re_findall_bullets (py ''* -'' @ [9] @ py ''- x'') = [py ''-'' @ [9] @ py ''- x''] \<and>
   map p_text (body (content_slide (py ''Slide 2'', [py ''-'' @ [9] @ py ''- x''])))
     = [py ''- x''] \<and>
   map_option (\<lambda>prs. map p_text (body (slides prs ! 1)))
     (create_presentation_prs (\<lambda>_. True) (\<lambda>_. False)
        \<lparr>year = 2026, month = November, day = 3, hour = 9, minute = 30, second = 0\<rparr>
        (py ''Business Report'')
        (py ''**Slide 2: Results**'' @ [newline] @ py ''* -'' @ [9] @ py ''- x''))
     = Some [py ''- x''] \<and>
   hd (py ''- x'') = dash"
proof -
  have a: "re_findall_bullets (py ''* -'' @ [9] @ py ''- x'') = [py ''-'' @ [9] @ py ''- x'']"
    by (simp add: match_bullet_def isspace_def py_def)
  have t: "strip (strip_chars [dash, bullet_glyph, star, space] (py ''-'' @ [9] @ py ''- x''))
           = py ''- x''"
    by (simp add: strip_chars_def strip_def py_def) (simp add: isspace_def)
  have b: "map p_text (body (content_slide (py ''Slide 2'', [py ''-'' @ [9] @ py ''- x''])))
           = [py ''- x'']"
    using t by (simp add: body_content_slide bullet_paragraph_def)
  have p: "parse_gemini_structure (\<lambda>_. False)
             (py ''**Slide 2: Results**'' @ [newline] @ py ''* -'' @ [9] @ py ''- x'')
           = [(py ''Slide 2'', [py ''-'' @ [9] @ py ''- x''])]"
    by (simp add: eval_parse str_nat.simps)
  have c: "map_option (\<lambda>prs. map p_text (body (slides prs ! 1)))
     (create_presentation_prs (\<lambda>_. True) (\<lambda>_. False)
        \<lparr>year = 2026, month = November, day = 3, hour = 9, minute = 30, second = 0\<rparr>
        (py ''Business Report'')
        (py ''**Slide 2: Results**'' @ [newline] @ py ''* -'' @ [9] @ py ''- x''))
     = Some [py ''- x'']"
    unfolding create_presentation_prs_eq p
    using t by (simp add: MAX_SLIDES_def body_content_slide bullet_paragraph_def list.pred_True)
  have d: "hd (py ''- x'') = dash"
    by (simp add: py_def)
  from a b c d show ?thesis by blast
qed

text \<open>
  C7, as amended. Lines of the form \<open>* text\<close> give their texts as the bullets, in the
  order of the lines, and a content slide has one paragraph per bullet, in the same order
  (a record without bullets keeps the one empty paragraph). The text of a bullet's
  paragraph is the bullet with the characters dash, bullet glyph, asterisk and space
  stripped from both ends, and then the whitespace stripped from both ends, each once.
  What the first strip leaves neither starts nor ends with one of the four characters; the
  rendered text neither starts nor ends with whitespace; and when the first strip leaves no
  whitespace at either end, the rendered text is what it left, so that it neither starts
  nor ends with one of the four characters. When the deck is built, the outline line
  \<open>* - Revenue grew 10%\<close> is rendered as \<open>Revenue grew 10%\<close>.
\<close>

theorem bullets_in_order_and_stripped:
  assumes "list_all bullet_text_ok bs"
  shows "re_findall_bullets (concat (map (\<lambda>b. py ''* '' @ b @ [newline]) bs)) = bs \<and>
         map p_text (body (content_slide (title, bullet_points))) =
           (if bullet_points = [] then [[]]
            else map (\<lambda>bullet. strip (strip_chars [dash, bullet_glyph, star, space] bullet))
                   bullet_points) \<and>
         p_text (bullet_paragraph bullet) =
           strip (strip_chars [dash, bullet_glyph, star, space] bullet) \<and>
         (strip_chars [dash, bullet_glyph, star, space] bullet = [] \<or>
          (hd (strip_chars [dash, bullet_glyph, star, space] bullet)
             \<notin> {dash, bullet_glyph, star, space} \<and>
           last (strip_chars [dash, bullet_glyph, star, space] bullet)
             \<notin> {dash, bullet_glyph, star, space})) \<and>
         (p_text (bullet_paragraph bullet) = [] \<or>
          (\<not> isspace (hd (p_text (bullet_paragraph bullet))) \<and>
           \<not> isspace (last (p_text (bullet_paragraph bullet))))) \<and>
         (strip_chars [dash, bullet_glyph, star, space] bullet = [] \<or>
          (\<not> isspace (hd (strip_chars [dash, bullet_glyph, star, space] bullet)) \<and>
           \<not> isspace (last (strip_chars [dash, bullet_glyph, star, space] bullet))) \<longrightarrow>
            p_text (bullet_paragraph bullet) =
              strip_chars [dash, bullet_glyph, star, space] bullet \<and>
            (p_text (bullet_paragraph bullet) = [] \<or>
             (hd (p_text (bullet_paragraph bullet)) \<notin> {dash, bullet_glyph, star, space} \<and>
              last (p_text (bullet_paragraph bullet)) \<notin> {dash, bullet_glyph, star, space}))) \<and>
         (\<forall>prs. create_presentation_prs accepts nd clock ppt_title
                  (py ''**Slide 2: Results**'' @ [newline] @ py ''* - Revenue grew 10%'')
                = Some prs \<longrightarrow>
                map p_text (body (slides prs ! 1)) = [py ''Revenue grew 10%''])"
proof -
  let ?q = "strip_chars [dash, bullet_glyph, star, space] bullet"
  let ?r = "p_text (bullet_paragraph bullet)"
  have "re_findall_bullets (concat (map (\<lambda>b. [] @ py ''* '' @ b @ [newline]) bs) @ [])
        = bs @ re_findall_bullets []"
    using assms by (intro re_findall_bullets_lines) simp_all
  then have a: "re_findall_bullets (concat (map (\<lambda>b. py ''* '' @ b @ [newline]) bs)) = bs"
    by simp
  have b: "map p_text (body (content_slide (title, bullet_points))) =
           (if bullet_points = [] then [[]]
            else map (\<lambda>bullet. strip (strip_chars [dash, bullet_glyph, star, space] bullet))
                   bullet_points)"
    by (simp add: body_content_slide plain_paragraph_def bullet_paragraph_def comp_def)
  have c: "?r = strip ?q"
    by (rule p_text_bullet_paragraph)
  have d: "?q = [] \<or>
           (hd ?q \<notin> {dash, bullet_glyph, star, space} \<and>
            last ?q \<notin> {dash, bullet_glyph, star, space})"
    using strip_chars_no_surrounding_chars [of "[dash, bullet_glyph, star, space]" bullet]
    by simp
  have e: "?r = [] \<or> (\<not> isspace (hd ?r) \<and> \<not> isspace (last ?r))"
    using strip_no_surrounding_space [of ?q] by (simp add: c)
  have f: "?q = [] \<or> (\<not> isspace (hd ?q) \<and> \<not> isspace (last ?q)) \<longrightarrow>
           ?r = ?q \<and>
           (?r = [] \<or>
            (hd ?r \<notin> {dash, bullet_glyph, star, space} \<and>
             last ?r \<notin> {dash, bullet_glyph, star, space}))"
  proof
    assume "?q = [] \<or> (\<not> isspace (hd ?q) \<and> \<not> isspace (last ?q))"
    then have "strip ?q = ?q"
      by (rule strip_unchanged)
    with c have "?r = ?q" by simp
    with d show "?r = ?q \<and>
           (?r = [] \<or>
            (hd ?r \<notin> {dash, bullet_glyph, star, space} \<and>
             last ?r \<notin> {dash, bullet_glyph, star, space}))"
      by simp
  qed
  have p: "parse_gemini_structure nd
             (py ''**Slide 2: Results**'' @ [newline] @ py ''* - Revenue grew 10%'')
           = [(py ''Slide 2'', [py ''- Revenue grew 10%''])]"
    by (simp add: eval_parse str_nat.simps)
  have t: "strip (strip_chars [dash, bullet_glyph, star, space] (py ''- Revenue grew 10%''))
           = py ''Revenue grew 10%''"
    by (simp add: strip_chars_def strip_def isspace_def py_def)
  have g: "\<forall>prs. create_presentation_prs accepts nd clock ppt_title
                  (py ''**Slide 2: Results**'' @ [newline] @ py ''* - Revenue grew 10%'')
                = Some prs \<longrightarrow>
                map p_text (body (slides prs ! 1)) = [py ''Revenue grew 10%'']"
  proof (intro allI impI)
    fix prs
    assume "create_presentation_prs accepts nd clock ppt_title
              (py ''**Slide 2: Results**'' @ [newline] @ py ''* - Revenue grew 10%'') = Some prs"
    from slides_create_presentation_prs [OF this, unfolded p] t
    show "map p_text (body (slides prs ! 1)) = [py ''Revenue grew 10%'']"
      by (simp add: MAX_SLIDES_def body_content_slide bullet_paragraph_def)
  qed
  from a b c d e f g show ?thesis
    by blast
qed

theorem bullets_in_order_and_stripped_witness:
  "list_all bullet_text_ok [py ''- Revenue grew 10%'', py ''Costs fell''] \<and>
   re_findall_bullets (py ''* - Revenue grew 10%'' @ [newline] @ py ''* Costs fell'' @ [newline])
     = [py ''- Revenue grew 10%'', py ''Costs fell''] \<and>
   map p_text (body (content_slide (py ''Results'', [py ''- Revenue grew 10%'', py ''Costs fell''])))
     = [py ''Revenue grew 10%'', py ''Costs fell'']"
proof -
  let ?bs = "[py ''- Revenue grew 10%'', py ''Costs fell'']"
  have h: "list_all bullet_text_ok ?bs"
    by (simp add: bullet_text_ok_def isspace_def py_def)
  have t: "map (\<lambda>bullet. strip (strip_chars [dash, bullet_glyph, star, space] bullet)) ?bs
           = [py ''Revenue grew 10%'', py ''Costs fell'']"
    by (simp add: strip_chars_def strip_def isspace_def py_def)
  from bullets_in_order_and_stripped [OF h, of "py ''Results''" ?bs] h t
  have "re_findall_bullets (concat (map (\<lambda>b. py ''* '' @ b @ [newline]) ?bs)) = ?bs \<and>
        map p_text (body (content_slide (py ''Results'', ?bs)))
          = [py ''Revenue grew 10%'', py ''Costs fell'']"
    by simp
  with h show ?thesis
    by (simp add: py_def)
qed

text \<open>
  C8. In a fragment written in the markup the prompt asks for, the label lines
  \<open>* **Title:** ...\<close> and \<open>* **Bullet Points:**\<close> are collected as bullets before the
  real bullets, for every title text and every list of bullet texts. For the reply that the
  prompt spells out, each record's bullets hold its Title and Subtitle or Bullet Points
  label lines next to the real bullets.
\<close>

theorem label_lines_collected_as_bullets:
  assumes "newline \<notin> set tt" and "list_all bullet_text_ok bs"
  shows \<open>snd (slide_record i
              ([newline] @ py ''* **Title:** '' @ tt @ [newline] @
               py ''* **Bullet Points:**'' @ [newline] @
               concat (map (\<lambda>b. py ''    * '' @ b @ [newline]) bs)))
         = (py ''**Title:** '' @ tt) # py ''**Bullet Points:**'' # bs \<and>
         parse_gemini_structure nd
           (py ''**Slide 1: [Title Slide]**'' @ [newline] @
            py ''* **Title:** "Business Report"'' @ [newline] @
            py ''* **Subtitle:** "[1-line summary]"'' @ [newline, newline] @
            py ''**Slide 2: [Introduction]**'' @ [newline] @
            py ''* **Title:** "Intro title"'' @ [newline] @
            py ''* **Bullet Points:**'' @ [newline] @
            py ''    * Bullet 1'' @ [newline] @
            py ''    * Bullet 2'')
         = [(py ''"Business Report"'',
             [py ''**Title:** "Business Report"'', py ''**Subtitle:** "[1-line summary]"'']),
            (py ''"Intro title"'',
             [py ''**Title:** "Intro title"'', py ''**Bullet Points:**'',
              py ''Bullet 1'', py ''Bullet 2''])]\<close>
proof -
  have t: "bullet_text_ok (py ''**Title:** '' @ tt)"
    using assms(1) by (auto simp: bullet_text_ok_def py_def isspace_def)
  have b: "bullet_text_ok (py ''**Bullet Points:**'')"
    by (simp add: bullet_text_ok_def py_def isspace_def)
  have ind: "star \<notin> set (py ''    '')"
    by (simp add: py_def)
  let ?rest2 = "concat (map (\<lambda>b. py ''    '' @ py ''* '' @ b @ [newline]) bs) @ []"
  let ?rest1 = "[] @ py ''* '' @ py ''**Bullet Points:**'' @ newline # ?rest2"
  have "re_findall_bullets ([newline] @ py ''* '' @ (py ''**Title:** '' @ tt) @ newline # ?rest1)
        = (py ''**Title:** '' @ tt) # re_findall_bullets ?rest1"
    by (rule re_findall_bullets_line [OF _ t]) simp
  also have "re_findall_bullets ?rest1 = py ''**Bullet Points:**'' # re_findall_bullets ?rest2"
    by (rule re_findall_bullets_line [OF _ b]) simp
  also have "re_findall_bullets ?rest2 = bs @ re_findall_bullets []"
    by (rule re_findall_bullets_lines [OF ind assms(2)])
  finally have a: "snd (slide_record i
              ([newline] @ py ''* **Title:** '' @ tt @ [newline] @
               py ''* **Bullet Points:**'' @ [newline] @
               concat (map (\<lambda>b. py ''    * '' @ b @ [newline]) bs)))
         = (py ''**Title:** '' @ tt) # py ''**Bullet Points:**'' # bs"
    by (simp add: snd_slide_record py_def)
  have c: \<open>parse_gemini_structure nd
           (py ''**Slide 1: [Title Slide]**'' @ [newline] @
            py ''* **Title:** "Business Report"'' @ [newline] @
            py ''* **Subtitle:** "[1-line summary]"'' @ [newline, newline] @
            py ''**Slide 2: [Introduction]**'' @ [newline] @
            py ''* **Title:** "Intro title"'' @ [newline] @
            py ''* **Bullet Points:**'' @ [newline] @
            py ''    * Bullet 1'' @ [newline] @
            py ''    * Bullet 2'')
         = [(py ''"Business Report"'',
             [py ''**Title:** "Business Report"'', py ''**Subtitle:** "[1-line summary]"'']),
            (py ''"Intro title"'',
             [py ''**Title:** "Intro title"'', py ''**Bullet Points:**'',
              py ''Bullet 1'', py ''Bullet 2''])]\<close>
    by (simp add: eval_parse)
  from a c show ?thesis by blast
qed

theorem label_lines_collected_as_bullets_witness:
  \<open>newline \<notin> set (py ''"Intro title"'') \<and>
   list_all bullet_text_ok [py ''Bullet 1'', py ''Bullet 2''] \<and>
   snd (slide_record 1
          ([newline] @ py ''* **Title:** "Intro title"'' @ [newline] @
           py ''* **Bullet Points:**'' @ [newline] @
           py ''    * Bullet 1'' @ [newline] @ py ''    * Bullet 2'' @ [newline]))
     = [py ''**Title:** "Intro title"'', py ''**Bullet Points:**'', py ''Bullet 1'', py ''Bullet 2'']\<close>
proof -
  have h1: \<open>newline \<notin> set (py ''"Intro title"'')\<close>
    by (simp add: py_def)
  have h2: "list_all bullet_text_ok [py ''Bullet 1'', py ''Bullet 2'']"
    by (simp add: bullet_text_ok_def isspace_def py_def)
  from label_lines_collected_as_bullets [OF h1 h2, of 1] h1 h2 show ?thesis
    by (simp add: py_def)
qed

section \<open>Properties of the deck\<close>

lemma title_text_content_slide: "title_text (content_slide (title, bullet_points)) = title"
  by (simp add: content_slide_def)

lemma fallback_bullet_text:
  "strip (strip_chars [dash, bullet_glyph, star, space] (py ''Key points missing from AI output''))
     = py ''Key points missing from AI output''"
  by (simp add: strip_chars_def strip_def isspace_def py_def)

lemma create_presentation_prs_accepts_all:
  "create_presentation_prs (\<lambda>_. True) nd clock ppt_title slide_structure =
     Some \<lparr>slide_width = 12191695, slide_height = 6858000,
            slides = title_slide clock ppt_title #
              map content_slide
                (take MAX_SLIDES
                   (if parse_gemini_structure nd slide_structure = []
                    then [(py ''Introduction'', [py ''Key points missing from AI output''])]
                    else parse_gemini_structure nd slide_structure))\<rparr>"
  by (simp add: create_presentation_prs_eq list.pred_True)

text \<open>
  A title the slide library does not take gives no deck: with a library that refuses the
  code point U+FFFF, the title \<open>Q\<close> followed by that code point leaves nothing.
\<close>

lemma rejected_title_gives_no_deck:
  "create_presentation_prs (\<lambda>s. 65535 \<notin> set s) nd clock [81, 65535] slide_structure = None"
  by (simp add: create_presentation_prs_eq texts_set_def)

text \<open>
  C3. When the parser finds no record and the deck is built, it has exactly two slides,
  whatever the title: the title slide, and one content slide titled \<open>Introduction\<close>
  whose only bullet reads \<open>Key points missing from AI output\<close>. The deck is built
  exactly when the slide library takes the title, the date line and the two texts of the
  fallback slide. (\<open>MAX_SLIDES\<close> is the constant 10.)
\<close>

theorem empty_outline_gives_fallback_deck:
  assumes "parse_gemini_structure nd slide_structure = []"
  shows "(create_presentation_prs accepts nd clock ppt_title slide_structure \<noteq> None) =
           (accepts ppt_title \<and> accepts (py ''Generated on '' @ strftime_d_B_Y clock) \<and>
            accepts (py ''Introduction'') \<and>
            accepts (py ''Key points missing from AI output'')) \<and>
         (\<forall>prs. create_presentation_prs accepts nd clock ppt_title slide_structure = Some prs \<longrightarrow>
            slides prs =
              [title_slide clock ppt_title,
               content_slide (py ''Introduction'', [py ''Key points missing from AI output''])] \<and>
            length (slides prs) = 2 \<and>
            deck_text prs =
              [(ppt_title, [py ''Generated on '' @ strftime_d_B_Y clock]),
               (py ''Introduction'', [py ''Key points missing from AI output''])])"
proof -
  have a: "(create_presentation_prs accepts nd clock ppt_title slide_structure \<noteq> None) =
           (accepts ppt_title \<and> accepts (py ''Generated on '' @ strftime_d_B_Y clock) \<and>
            accepts (py ''Introduction'') \<and>
            accepts (py ''Key points missing from AI output''))"
    using assms
    by (simp add: create_presentation_prs_eq MAX_SLIDES_def texts_set_def bullet_paragraph_def
          fallback_bullet_text)
  have b: "\<forall>prs. create_presentation_prs accepts nd clock ppt_title slide_structure = Some prs \<longrightarrow>
            slides prs =
              [title_slide clock ppt_title,
               content_slide (py ''Introduction'', [py ''Key points missing from AI output''])] \<and>
            length (slides prs) = 2 \<and>
            deck_text prs =
              [(ppt_title, [py ''Generated on '' @ strftime_d_B_Y clock]),
               (py ''Introduction'', [py ''Key points missing from AI output''])]"
  proof (intro allI impI)
    fix prs
    assume "create_presentation_prs accepts nd clock ppt_title slide_structure = Some prs"
    from slides_create_presentation_prs [OF this] assms
    have s: "slides prs =
           [title_slide clock ppt_title,
            content_slide (py ''Introduction'', [py ''Key points missing from AI output''])]"
      by (simp add: MAX_SLIDES_def)
    have "deck_text prs =
           [(ppt_title, [py ''Generated on '' @ strftime_d_B_Y clock]),
            (py ''Introduction'', [py ''Key points missing from AI output''])]"
      unfolding deck_text_def s
      by (simp add: title_slide_def plain_paragraph_def body_content_slide bullet_paragraph_def
            fallback_bullet_text title_text_content_slide)
    with s show "slides prs =
              [title_slide clock ppt_title,
               content_slide (py ''Introduction'', [py ''Key points missing from AI output''])] \<and>
            length (slides prs) = 2 \<and>
            deck_text prs =
              [(ppt_title, [py ''Generated on '' @ strftime_d_B_Y clock]),
               (py ''Introduction'', [py ''Key points missing from AI output''])]"
      by simp
  qed
  from a b show ?thesis by blast
qed

theorem empty_outline_gives_fallback_deck_witness:
  "parse_gemini_structure (\<lambda>_. False) (py ''Sorry, I cannot help with that.'') = [] \<and>
   map_option deck_text
     (create_presentation_prs (\<lambda>s. 65535 \<notin> set s) (\<lambda>_. False)
        \<lparr>year = 2026, month = November, day = 3, hour = 9, minute = 30, second = 0\<rparr>
        (py ''Business Report'') (py ''Sorry, I cannot help with that.'')) =
     Some [(py ''Business Report'', [py ''Generated on 03 November 2026'']),
           (py ''Introduction'', [py ''Key points missing from AI output''])] \<and>
   map_option (\<lambda>prs. length (slides prs))
     (create_presentation_prs (\<lambda>s. 65535 \<notin> set s) (\<lambda>_. False)
        \<lparr>year = 2026, month = November, day = 3, hour = 9, minute = 30, second = 0\<rparr>
        (py ''Business Report'') (py ''Sorry, I cannot help with that.'')) = Some 2"
proof -
  let ?c = "\<lparr>year = 2026, month = November, day = 3, hour = 9, minute = 30, second = 0\<rparr>"
  let ?B = "create_presentation_prs (\<lambda>s. 65535 \<notin> set s) (\<lambda>_. False) ?c
              (py ''Business Report'') (py ''Sorry, I cannot help with that.'')"
  have h: "parse_gemini_structure (\<lambda>_. False) (py ''Sorry, I cannot help with that.'') = []"
    by (simp add: eval_parse)
  have d: "strftime_d_B_Y ?c = py ''03 November 2026''"
    by (simp add: strftime_d_B_Y_def str_nat.simps py_def)
  have acc: "65535 \<notin> set (py ''Business Report'') \<and>
             65535 \<notin> set (py ''Generated on '' @ strftime_d_B_Y ?c) \<and>
             65535 \<notin> set (py ''Introduction'') \<and>
             65535 \<notin> set (py ''Key points missing from AI output'')"
    unfolding d by (simp add: py_def)
  note t = empty_outline_gives_fallback_deck
             [OF h, of "\<lambda>s. 65535 \<notin> set s" ?c "py ''Business Report''"]
  from t acc have "?B \<noteq> None"
    by blast
  then obtain prs where p: "?B = Some prs"
    by auto
  with t have "length (slides prs) = 2" and
    "deck_text prs = [(py ''Business Report'', [py ''Generated on '' @ strftime_d_B_Y ?c]),
                      (py ''Introduction'', [py ''Key points missing from AI output''])]"
    by blast+
  with p h d show ?thesis
    by (simp add: py_def)
qed



text \<open>
  C10 as stated fails: the title slide carries the date of the call, so the same title and
  outline give decks with different text just before and just after midnight.
\<close>

theorem deck_text_differs_by_date_counterexample:
  "map_option deck_text
     (create_presentation_prs (\<lambda>_. True) (\<lambda>_. False)
        \<lparr>year = 2026, month = November, day = 3, hour = 23, minute = 59, second = 59\<rparr>
        (py ''Business Report'') (py ''**Slide 2: Topic**''))
   = Some [(py ''Business Report'', [py ''Generated on 03 November 2026'']),
           (py ''Slide 2'', [[]])] \<and>
   map_option deck_text
     (create_presentation_prs (\<lambda>_. True) (\<lambda>_. False)
        \<lparr>year = 2026, month = November, day = 4, hour = 0, minute = 0, second = 1\<rparr>
        (py ''Business Report'') (py ''**Slide 2: Topic**''))
   = Some [(py ''Business Report'', [py ''Generated on 04 November 2026'']),
           (py ''Slide 2'', [[]])] \<and>
   map_option deck_text
     (create_presentation_prs (\<lambda>_. True) (\<lambda>_. False)
        \<lparr>year = 2026, month = November, day = 3, hour = 23, minute = 59, second = 59\<rparr>
        (py ''Business Report'') (py ''**Slide 2: Topic**''))
   \<noteq>
   map_option deck_text
     (create_presentation_prs (\<lambda>_. True) (\<lambda>_. False)
        \<lparr>year = 2026, month = November, day = 4, hour = 0, minute = 0, second = 1\<rparr>
        (py ''Business Report'') (py ''**Slide 2: Topic**''))"
proof -
  have p: "parse_gemini_structure (\<lambda>_. False) (py ''**Slide 2: Topic**'') = [(py ''Slide 2'', [])]"
    by (simp add: eval_parse str_nat.simps)
  show ?thesis
    unfolding create_presentation_prs_accepts_all p
    by (simp add: deck_text_def title_slide_def plain_paragraph_def body_content_slide
          title_text_content_slide MAX_SLIDES_def strftime_d_B_Y_def str_nat.simps py_def)
qed

text \<open>
  C10, as amended. Two calls with the same title and outline that both build a deck give
  decks with the same number of slides, the same content slides and the same title on the
  title slide, whatever the clock says; when both calls fall on the same calendar date the
  two results are equal altogether; and one call builds a deck exactly when the other
  does, as far as the slide library treats the two date lines alike.
\<close>

theorem deck_same_but_for_date_line:
  "(\<forall>prs1 prs2.
      create_presentation_prs accepts nd clock1 ppt_title slide_structure = Some prs1 \<and>
      create_presentation_prs accepts nd clock2 ppt_title slide_structure = Some prs2 \<longrightarrow>
      length (slides prs1) = length (slides prs2) \<and>
      tl (slides prs1) = tl (slides prs2) \<and>
      tl (deck_text prs1) = tl (deck_text prs2) \<and>
      fst (hd (deck_text prs1)) = fst (hd (deck_text prs2))) \<and>
   (year clock1 = year clock2 \<and> month clock1 = month clock2 \<and> day clock1 = day clock2 \<longrightarrow>
      create_presentation_prs accepts nd clock1 ppt_title slide_structure =
        create_presentation_prs accepts nd clock2 ppt_title slide_structure) \<and>
   (accepts (py ''Generated on '' @ strftime_d_B_Y clock1) =
      accepts (py ''Generated on '' @ strftime_d_B_Y clock2) \<longrightarrow>
      (create_presentation_prs accepts nd clock1 ppt_title slide_structure = None) =
        (create_presentation_prs accepts nd clock2 ppt_title slide_structure = None))"
proof -
  define shown where
    "shown = take MAX_SLIDES
       (if parse_gemini_structure nd slide_structure = []
        then [(py ''Introduction'', [py ''Key points missing from AI output''])]
        else parse_gemini_structure nd slide_structure)"
  define others where
    "others = concat (map (\<lambda>(title, bullet_points).
                 title # map (\<lambda>bullet. p_text (bullet_paragraph bullet)) bullet_points) shown)"
  have eq: "create_presentation_prs accepts nd clock ppt_title slide_structure =
     (if accepts ppt_title \<and> accepts (py ''Generated on '' @ strftime_d_B_Y clock) \<and>
         list_all accepts others
      then Some \<lparr>slide_width = 12191695, slide_height = 6858000,
                  slides = title_slide clock ppt_title # map content_slide shown\<rparr>
      else None)" for clock
    unfolding create_presentation_prs_eq shown_def [symmetric]
    by (simp add: texts_set_def others_def)
  have ts: "title_text (title_slide clock ppt_title) = ppt_title" for clock
    by (simp add: title_slide_def)
  have a: "\<forall>prs1 prs2.
      create_presentation_prs accepts nd clock1 ppt_title slide_structure = Some prs1 \<and>
      create_presentation_prs accepts nd clock2 ppt_title slide_structure = Some prs2 \<longrightarrow>
      length (slides prs1) = length (slides prs2) \<and>
      tl (slides prs1) = tl (slides prs2) \<and>
      tl (deck_text prs1) = tl (deck_text prs2) \<and>
      fst (hd (deck_text prs1)) = fst (hd (deck_text prs2))"
  proof (intro allI impI)
    fix prs1 prs2
    assume b: "create_presentation_prs accepts nd clock1 ppt_title slide_structure = Some prs1 \<and>
               create_presentation_prs accepts nd clock2 ppt_title slide_structure = Some prs2"
    then have s1: "slides prs1 = title_slide clock1 ppt_title # map content_slide shown"
      unfolding eq by (auto split: if_splits)
    from b have s2: "slides prs2 = title_slide clock2 ppt_title # map content_slide shown"
      unfolding eq by (auto split: if_splits)
    show "length (slides prs1) = length (slides prs2) \<and>
      tl (slides prs1) = tl (slides prs2) \<and>
      tl (deck_text prs1) = tl (deck_text prs2) \<and>
      fst (hd (deck_text prs1)) = fst (hd (deck_text prs2))"
      unfolding deck_text_def s1 s2 by (simp add: ts)
  qed
  have "year clock1 = year clock2 \<and> month clock1 = month clock2 \<and> day clock1 = day clock2 \<Longrightarrow>
        strftime_d_B_Y clock1 = strftime_d_B_Y clock2"
    by (simp add: strftime_d_B_Y_def)
  then have b: "year clock1 = year clock2 \<and> month clock1 = month clock2 \<and> day clock1 = day clock2 \<longrightarrow>
      create_presentation_prs accepts nd clock1 ppt_title slide_structure =
        create_presentation_prs accepts nd clock2 ppt_title slide_structure"
    unfolding eq by (simp add: title_slide_def)
  have c: "accepts (py ''Generated on '' @ strftime_d_B_Y clock1) =
      accepts (py ''Generated on '' @ strftime_d_B_Y clock2) \<longrightarrow>
      (create_presentation_prs accepts nd clock1 ppt_title slide_structure = None) =
        (create_presentation_prs accepts nd clock2 ppt_title slide_structure = None)"
    unfolding eq by simp
  from a b c show ?thesis by blast
qed

theorem deck_same_but_for_date_line_witness:
  "create_presentation_prs (\<lambda>_. True) (\<lambda>_. False)
      \<lparr>year = 2026, month = November, day = 3, hour = 9, minute = 30, second = 0\<rparr>
      (py ''Business Report'') (py ''**Slide 2: Topic**'') =
   create_presentation_prs (\<lambda>_. True) (\<lambda>_. False)
      \<lparr>year = 2026, month = November, day = 3, hour = 23, minute = 59, second = 59\<rparr>
      (py ''Business Report'') (py ''**Slide 2: Topic**'')"
  using deck_same_but_for_date_line
          [of "\<lambda>_. True" "\<lambda>_. False"
              "\<lparr>year = 2026, month = November, day = 3, hour = 9, minute = 30, second = 0\<rparr>"
              "py ''Business Report''" "py ''**Slide 2: Topic**''"
              "\<lparr>year = 2026, month = November, day = 3, hour = 23, minute = 59, second = 59\<rparr>"]
  by simp

section \<open>The temporary file\<close>

lemma create_presentation_built:
  assumes "create_presentation_prs accepts nd (now e) ppt_title s = Some prs"
    and "tmp_stem e = Some stem"
  shows "create_presentation accepts nd e fs ppt_title s =
           (if save_ok e
            then (Some (stem @ py ''.pptx''), fs(stem @ py ''.pptx'' \<mapsto> Pptx prs))
            else (None, fs(stem @ py ''.pptx'' \<mapsto> Empty)))"
  using assms by (simp add: create_presentation_def Let_def)

text \<open>When the build raises, no file is created and the user is offered nothing.\<close>

lemma main_generate_build_raised:
  assumes "create_presentation_prs accepts nd (now e) ppt_title s = None"
  shows "main_generate accepts nd e fs ppt_title s = (NoArtifact, fs)"
  using assms by (simp add: main_generate_def create_presentation_def)

text \<open>
  C9 as stated fails: when reading the saved file back raises, the file is still there.
\<close>

theorem temp_file_left_when_read_fails_counterexample:
  "fst (main_generate (\<lambda>_. True) (\<lambda>_. False)
          \<lparr>now = \<lparr>year = 2026, month = November, day = 3, hour = 9, minute = 30, second = 0\<rparr>,
           tmp_stem = Some (py ''/tmp/tmpk3v9xq_a''), save_ok = True, read_ok = False,
           unlink_ok = True\<rparr>
          Map.empty (py ''Business Report'') []) = ReadRaised \<and>
   snd (main_generate (\<lambda>_. True) (\<lambda>_. False)
          \<lparr>now = \<lparr>year = 2026, month = November, day = 3, hour = 9, minute = 30, second = 0\<rparr>,
           tmp_stem = Some (py ''/tmp/tmpk3v9xq_a''), save_ok = True, read_ok = False,
           unlink_ok = True\<rparr>
          Map.empty (py ''Business Report'') []) (py ''/tmp/tmpk3v9xq_a.pptx'') \<noteq> None"
  by (simp add: main_generate_def create_presentation_def create_presentation_prs_accepts_all
        Let_def py_def)

text \<open>
  C9, as amended. Once the deck has been built and the temporary file created, the file is
  gone after the \<open>Generate PowerPoint\<close> step exactly when saving, reading back and
  unlinking all succeed; then the user is offered the deck's bytes and the file system is
  as before but for that path. When reading back fails, the saved file stays; when saving
  fails, the file created for it stays.
\<close>

theorem temp_file_removed_iff_all_succeed:
  assumes "tmp_stem e = Some stem"
    and "create_presentation_prs accepts nd (now e) ppt_title s = Some prs"
  shows "(snd (main_generate accepts nd e fs ppt_title s) (stem @ py ''.pptx'') = None) =
           (save_ok e \<and> read_ok e \<and> unlink_ok e) \<and>
         (save_ok e \<and> read_ok e \<and> unlink_ok e \<longrightarrow>
            main_generate accepts nd e fs ppt_title s =
              (Download (Pptx prs)
                 (map (\<lambda>c. if c = space then 95 else c) ppt_title @ py ''.pptx''),
               fs(stem @ py ''.pptx'' := None))) \<and>
         (save_ok e \<and> \<not> read_ok e \<longrightarrow>
            main_generate accepts nd e fs ppt_title s =
              (ReadRaised, fs(stem @ py ''.pptx'' \<mapsto> Pptx prs))) \<and>
         (\<not> save_ok e \<longrightarrow>
            main_generate accepts nd e fs ppt_title s =
              (NoArtifact, fs(stem @ py ''.pptx'' \<mapsto> Empty)))"
proof -
  have ne: "py ''.pptx'' \<noteq> []"
    by (simp add: py_def)
  show ?thesis
    by (simp add: main_generate_def create_presentation_built [OF assms(2) assms(1)] ne)
qed

theorem temp_file_removed_iff_all_succeed_witness:
  "tmp_stem \<lparr>now = \<lparr>year = 2026, month = November, day = 3, hour = 9, minute = 30, second = 0\<rparr>,
             tmp_stem = Some (py ''/tmp/tmpk3v9xq_a''), save_ok = True, read_ok = True,
             unlink_ok = True\<rparr> = Some (py ''/tmp/tmpk3v9xq_a'') \<and>
   create_presentation_prs (\<lambda>_. True) (\<lambda>_. False)
     \<lparr>year = 2026, month = November, day = 3, hour = 9, minute = 30, second = 0\<rparr>
     (py ''Business Report'') [] \<noteq> None \<and>
   Some (main_generate (\<lambda>_. True) (\<lambda>_. False)
     \<lparr>now = \<lparr>year = 2026, month = November, day = 3, hour = 9, minute = 30, second = 0\<rparr>,
      tmp_stem = Some (py ''/tmp/tmpk3v9xq_a''), save_ok = True, read_ok = True,
      unlink_ok = True\<rparr>
     Map.empty (py ''Business Report'') []) =
   map_option
     (\<lambda>prs. (Download (Pptx prs) (py ''Business_Report.pptx''), Map.empty))
     (create_presentation_prs (\<lambda>_. True) (\<lambda>_. False)
        \<lparr>year = 2026, month = November, day = 3, hour = 9, minute = 30, second = 0\<rparr>
        (py ''Business Report'') [])"
proof -
  let ?c = "\<lparr>year = 2026, month = November, day = 3, hour = 9, minute = 30, second = 0\<rparr>"
  let ?e = "\<lparr>now = ?c, tmp_stem = Some (py ''/tmp/tmpk3v9xq_a''), save_ok = True,
             read_ok = True, unlink_ok = True\<rparr>"
  have h: "tmp_stem ?e = Some (py ''/tmp/tmpk3v9xq_a'')"
    by simp
  obtain prs where p:
    "create_presentation_prs (\<lambda>_. True) (\<lambda>_. False) ?c (py ''Business Report'') [] = Some prs"
    using create_presentation_prs_accepts_all by blast
  then have p': "create_presentation_prs (\<lambda>_. True) (\<lambda>_. False) (now ?e)
                   (py ''Business Report'') [] = Some prs"
    by simp
  have n: "map (\<lambda>c. if c = space then 95 else c) (py ''Business Report'') @ py ''.pptx''
           = py ''Business_Report.pptx''"
    by (simp add: py_def)
  from temp_file_removed_iff_all_succeed [OF h p', of Map.empty] n
  have "main_generate (\<lambda>_. True) (\<lambda>_. False) ?e Map.empty (py ''Business Report'') []
        = (Download (Pptx prs) (py ''Business_Report.pptx''), Map.empty)"
    by simp
  with h p show ?thesis
    by simp
qed

section \<open>Properties of the text extractor\<close>

lemma extract_text_from_pdf_success_iff:
  "extract_text_from_pdf f =
     (if MIN_CONTENT_LENGTH < length (extracted_text f) then (Some (extracted_text f), None)
      else (None, Some (py ''Failed to extract sufficient text (document may be scanned)'')))"
  by (simp add: extract_text_from_pdf_def Let_def)

text \<open>
  C2. The claim takes a text of \<open>MIN_CONTENT_LENGTH\<close> characters or more for a success.
  The code does not: one page of 89 characters gives, with its page marker, a text of
  exactly 100 characters, for which the second library is not tried (100 is not below the
  minimum) and the result is the failure all the same (100 is not above it).
\<close>

theorem extract_hundred_characters_fails:
  "length (extracted_text
     \<lparr>pdfplumber_pages = Some [ExtractReturns (Some (replicate 89 120))],
      pypdf2_pages = Some [ExtractReturns (Some (replicate 89 120))]\<rparr>) = 100 \<and>
   extract_text_from_pdf
     \<lparr>pdfplumber_pages = Some [ExtractReturns (Some (replicate 89 120))],
      pypdf2_pages = Some [ExtractReturns (Some (replicate 89 120))]\<rparr> =
     (None, Some (py ''Failed to extract sufficient text (document may be scanned)''))"
proof -
  have ne: "replicate 89 (120::nat) \<noteq> []"
    by simp
  have l: "length (extracted_text
     \<lparr>pdfplumber_pages = Some [ExtractReturns (Some (replicate 89 120))],
      pypdf2_pages = Some [ExtractReturns (Some (replicate 89 120))]\<rparr>) = 100"
    using ne
    by (simp add: extracted_text_def Let_def MIN_CONTENT_LENGTH_def PROCESSING_CHUNK_SIZE_def
          str_nat.simps py_def)
  then show ?thesis
    by (simp add: extract_text_from_pdf_success_iff MIN_CONTENT_LENGTH_def)
qed

end
